theory Spec2Isabelle
  imports Main "HOL-Library.Multiset"
begin

section \<open>Spec-file selector (github.ts)\<close>

text \<open>
  File names, API keys and version labels are JavaScript strings; they are modelled as
  \<^typ>\<open>string\<close>. Every test the code makes on their characters (ASCII digits, ASCII
  letters, the character \<open>@\<close>) is a test on ASCII characters.

  \<open>pickSpecFile\<close> throws \<open>new Error(message)\<close> at three places. Each place is a
  constructor of \<open>error\<close> carrying the values interpolated into the message, and
  \<open>message\<close> renders the text the source builds.
\<close>

datatype error =
    NoJsons
  | FileNotExists string "string list"
  | CannotChoose "string list"

text \<open>\<open>Array.prototype.join\<close> with a separator.\<close>

fun joinStr :: "string \<Rightarrow> string list \<Rightarrow> string" where
  "joinStr sep [] = []"
| "joinStr sep [x] = x"
| "joinStr sep (x # y # ys) = x @ sep @ joinStr sep (y # ys)"

definition message :: "error \<Rightarrow> string" where
  "message e =
     (case e of
        NoJsons \<Rightarrow> ''No hay JSONs en ese directorio.''
      | FileNotExists f jsons \<Rightarrow>
          ''--file '' @ [CHR 0x22] @ f @ [CHR 0x22] @ '' no existe. Disponibles: ''
            @ joinStr '', '' jsons
      | CannotChoose jsons \<Rightarrow>
          ''Hay varios JSONs y no puedo elegir de forma segura. Usa --file.''
            @ [CHR 0x0A] @ ''Disponibles: '' @ joinStr '', '' jsons)"

text \<open>
  The error kinds of the specification: a missing override and an empty directory are
  NotFound, several candidates without a safe default are AmbiguousSelection.
\<close>

datatype kind = NotFound | AmbiguousSelection

fun kind_of :: "error \<Rightarrow> kind" where
  "kind_of NoJsons = NotFound"
| "kind_of (FileNotExists f jsons) = NotFound"
| "kind_of (CannotChoose jsons) = AmbiguousSelection"

text \<open>
  An optional string parameter (\<open>fileOverride?: string\<close>, \<open>scope?: string\<close>) is a
  \<^typ>\<open>string option\<close>. The source tests it with \<open>if (x)\<close>: \<open>undefined\<close> and the
  empty string are both falsy.
\<close>

fun truthy :: "string option \<Rightarrow> bool" where
  "truthy None = False"
| "truthy (Some s) = (s \<noteq> [])"

text \<open>The list \<open>preferred\<close> of \<open>pickSpecFile\<close>.\<close>

definition preferred :: "string \<Rightarrow> string list" where
  "preferred api = [api @ ''.json'', api @ ''s.json'']"

text \<open>
  \<open>pickSpecFile(api, jsons, fileOverride?)\<close>. The \<open>for\<close> loop over \<open>preferred\<close>
  returns at the first pattern that \<open>jsons\<close> includes, which is \<^const>\<open>find\<close>.
\<close>

definition pickSpecFile :: "string \<Rightarrow> string list \<Rightarrow> string option \<Rightarrow> error + string" where
  "pickSpecFile api jsons fileOverride =
     (case (if truthy fileOverride then fileOverride else None) of
        Some f \<Rightarrow>
          (if \<not> (f \<in> set jsons) then Inl (FileNotExists f jsons) else Inr f)
      | None \<Rightarrow>
          (if length jsons = 0 then Inl NoJsons
           else if length jsons = 1 then Inr (jsons ! 0)
           else (case find (\<lambda>p. p \<in> set jsons) (preferred api) of
                   Some p \<Rightarrow> Inr p
                 | None \<Rightarrow> Inl (CannotChoose jsons))))"

section \<open>Package naming (index.ts)\<close>

text \<open>\<open>normalizeScope(scope?)\<close>; \<open>startsWith("@")\<close> is a test on the first character.\<close>

definition startsWithAt :: "string \<Rightarrow> bool" where
  "startsWithAt s = (case s of [] \<Rightarrow> False | c # cs \<Rightarrow> c = CHR ''@'')"

definition normalizeScope :: "string option \<Rightarrow> string" where
  "normalizeScope scope =
     (case (if truthy scope then scope else None) of
        None \<Rightarrow> []
      | Some s \<Rightarrow> (if \<not> startsWithAt s then ''@'' @ s else s))"

text \<open>
  \<open>baseName\<close> and \<open>pkgName\<close> as the actions of \<open>generate\<close> and \<open>generate-latest\<close>
  compute them from the normalized scope; \<open>scope ? a : b\<close> tests for the empty string.
\<close>

definition baseName :: "string \<Rightarrow> string \<Rightarrow> string" where
  "baseName api version = ''azure-devops-'' @ api @ ''-'' @ version"

definition pkgName :: "string option \<Rightarrow> string \<Rightarrow> string \<Rightarrow> string" where
  "pkgName scopeOpt api version =
     (let scope = normalizeScope scopeOpt
      in if scope \<noteq> [] then scope @ ''/'' @ baseName api version
         else baseName api version)"

section \<open>Re-export entry file (scaffold.ts)\<close>

text \<open>
  \<open>scaffoldPackage\<close> asks the file system which generated files exist under
  \<open>packageDir\<close>. The file system is the predicate \<open>ex\<close>: \<open>ex segs\<close> is the value of
  \<open>fileExists(path.join(opts.packageDir, ...segs))\<close>.
\<close>

type_synonym files = "string list \<Rightarrow> bool"

definition hasApisIndex :: "files \<Rightarrow> bool" where
  "hasApisIndex ex = (ex [''apis'', ''index.ts''] \<or> ex [''src'', ''apis'', ''index.ts''])"

definition hasModelsIndex :: "files \<Rightarrow> bool" where
  "hasModelsIndex ex = (ex [''models'', ''index.ts''] \<or> ex [''src'', ''models'', ''index.ts''])"

definition hasConfiguration :: "files \<Rightarrow> bool" where
  "hasConfiguration ex = (ex [''configuration.ts''] \<or> ex [''src'', ''configuration.ts''])"

definition hasRuntime :: "files \<Rightarrow> bool" where
  "hasRuntime ex = (ex [''runtime.ts''] \<or> ex [''src'', ''runtime.ts''])"

definition usesSrcLayout :: "files \<Rightarrow> bool" where
  "usesSrcLayout ex =
     (ex [''src'', ''index.ts''] \<or> ex [''src'', ''apis''] \<or> ex [''src'', ''models''])"

definition fallbackSrcIndex :: "files \<Rightarrow> bool" where
  "fallbackSrcIndex ex = ex [''src'', ''index.ts'']"

definition entryFrom :: "files \<Rightarrow> string \<Rightarrow> string" where
  "entryFrom ex p = (if usesSrcLayout ex then ''./src/'' @ p else ''./'' @ p)"

text \<open>The template \<open>export * from "target";\<close>.\<close>

definition exportFrom :: "string \<Rightarrow> string" where
  "exportFrom target = ''export * from '' @ [CHR 0x22] @ target @ [CHR 0x22] @ '';''"

definition headerLines :: "string list" where
  "headerLines = [''// Auto-generated entrypoint.'', ''// Do not edit manually.'' @ [CHR 0x0A]]"

definition noEntrypointComment :: "files \<Rightarrow> string" where
  "noEntrypointComment ex =
     ''// No known entrypoints were detected. Inspect generated sources under ''
       @ (if usesSrcLayout ex then ''./src'' else ''./'')"

text \<open>
  The array \<open>exportsLines\<close> after each \<open>push\<close> of the source, in the source's order;
  the two last tests read the length of the array built so far.
\<close>

definition exportsLines :: "files \<Rightarrow> string list" where
  "exportsLines ex =
     (let l0 = headerLines;
          l1 = (if hasApisIndex ex then l0 @ [exportFrom (entryFrom ex ''apis/index.js'')] else l0);
          l2 = (if hasModelsIndex ex then l1 @ [exportFrom (entryFrom ex ''models/index.js'')] else l1);
          l3 = (if hasConfiguration ex then l2 @ [exportFrom (entryFrom ex ''configuration.js'')] else l2);
          l4 = (if hasRuntime ex then l3 @ [exportFrom (entryFrom ex ''runtime.js'')] else l3);
          l5 = (if length l4 \<le> 2 \<and> fallbackSrcIndex ex
                then l4 @ [exportFrom ''./src/index.js''] else l4);
          l6 = (if length l5 \<le> 2 then l5 @ [noEntrypointComment ex] else l5)
      in l6)"

text \<open>The content written to \<open>index.ts\<close>.\<close>

definition indexContent :: "files \<Rightarrow> string" where
  "indexContent ex = joinStr [CHR 0x0A] (exportsLines ex) @ [CHR 0x0A]"



section \<open>Version ranker (index.ts)\<close>

text \<open>
  \<open>isStableVersion(v)\<close> is \<open>!/preview|beta|rc/i.test(v)\<close>: none of the three words
  occurs in \<open>v\<close>, upper and lower case ASCII letters identified. The words contain
  ASCII letters only, and without the \<open>u\<close> flag a non-ASCII character never matches
  an ASCII one, so the test is a substring search in the ASCII-lowercased label.
\<close>

definition lowerAscii :: "char \<Rightarrow> char" where
  "lowerAscii c =
     (if 65 \<le> (of_char c :: nat) \<and> (of_char c :: nat) \<le> 90
      then char_of ((of_char c :: nat) + 32) else c)"

fun includesStr :: "string \<Rightarrow> string \<Rightarrow> bool" where
  "includesStr [] pat = (pat = [])"
| "includesStr (c # cs) pat = (take (length pat) (c # cs) = pat \<or> includesStr cs pat)"

definition regexTestCI :: "string \<Rightarrow> string \<Rightarrow> bool" where
  "regexTestCI word v = includesStr (map lowerAscii v) word"

definition isStableVersion :: "string \<Rightarrow> bool" where
  "isStableVersion v =
     (\<not> (regexTestCI ''preview'' v \<or> regexTestCI ''beta'' v \<or> regexTestCI ''rc'' v))"

text \<open>
  \<open>versionTokens(v)\<close> is \<open>v.split(/[^0-9]+/).filter(Boolean).map(x => parseInt(x, 10))\<close>.

  \<open>splitNonDigits\<close> is the \<open>split\<close>: the pieces between the maximal runs of
  non-digits, with an empty piece before a leading run, after a trailing run, and for
  the empty string. \<open>filter(Boolean)\<close> drops the empty pieces.
\<close>

definition isDigit :: "char \<Rightarrow> bool" where
  "isDigit c = (48 \<le> (of_char c :: nat) \<and> (of_char c :: nat) \<le> 57)"

definition digitVal :: "char \<Rightarrow> nat" where
  "digitVal c = (of_char c :: nat) - 48"

function splitNonDigits :: "string \<Rightarrow> string list" where
  "splitNonDigits [] = [[]]"
| "splitNonDigits (c # cs) =
     (if isDigit c
      then (case splitNonDigits cs of [] \<Rightarrow> [[c]] | p # ps \<Rightarrow> (c # p) # ps)
      else [] # splitNonDigits (dropWhile (\<lambda>d. \<not> isDigit d) cs))"
  by pat_completeness auto
termination
  by (relation "measure length") (auto simp add: less_Suc_eq_le length_dropWhile_le)

text \<open>
  \<open>parseInt(x, 10)\<close> reads the leading decimal digits of \<open>x\<close>. Every piece it is given
  here is a non-empty run of digits (\<open>versionTokens_pieces\<close> below), so the result is
  never NaN and is the number the run denotes. A JavaScript number holds every integer
  up to \<open>2^53\<close> exactly; the tokens are modelled as natural numbers.
\<close>

definition parseInt10 :: "string \<Rightarrow> nat" where
  "parseInt10 x = foldl (\<lambda>n c. 10 * n + digitVal c) 0 (takeWhile isDigit x)"

definition versionTokens :: "string \<Rightarrow> nat list" where
  "versionTokens v = map parseInt10 (filter (\<lambda>p. p \<noteq> []) (splitNonDigits v))"

text \<open>\<open>ta[i] ?? 0\<close>: an index past the end of the array reads \<open>undefined\<close>.\<close>

definition tokenAt :: "nat list \<Rightarrow> nat \<Rightarrow> nat" where
  "tokenAt t i = (if i < length t then t ! i else 0)"

text \<open>
  \<open>compareVersionsDesc(a, b)\<close>. The \<open>for\<close> loop returns at the first index below
  \<open>len\<close> where the tokens differ, which is \<^const>\<open>find\<close> on \<open>[0..<len]\<close>.

  The last line calls \<open>b.localeCompare(a)\<close>, the string collation of the JavaScript
  runtime, which depends on the runtime's locale data. It is the parameter \<open>lc\<close>:
  \<open>lc x y\<close> is \<open>x.localeCompare(y)\<close>.
\<close>

definition compareVersionsDesc :: "(string \<Rightarrow> string \<Rightarrow> int) \<Rightarrow> string \<Rightarrow> string \<Rightarrow> int" where
  "compareVersionsDesc lc a b =
     (let sa = isStableVersion a; sb = isStableVersion b
      in if sa \<noteq> sb then (if sa then - 1 else 1)
         else
           (let ta = versionTokens a; tb = versionTokens b;
                len = max (length ta) (length tb)
            in case find (\<lambda>i. tokenAt ta i \<noteq> tokenAt tb i) [0..<len] of
                 Some i \<Rightarrow> int (tokenAt tb i) - int (tokenAt ta i)
               | None \<Rightarrow> lc b a))"

text \<open>
  \<open>Array.prototype.sort(cmp)\<close> is a stable sort: \<open>x\<close> is placed before \<open>y\<close> when
  \<open>cmp(x, y) < 0\<close>, and elements that compare equal keep their input order. It is
  modelled by the stable insertion sort \<open>sortBy\<close>; \<open>sortBy_unique\<close> below shows that
  every stable sorted arrangement of the input is this list.
\<close>

fun insertBy :: "('a \<Rightarrow> 'a \<Rightarrow> int) \<Rightarrow> 'a \<Rightarrow> 'a list \<Rightarrow> 'a list" where
  "insertBy cmp x [] = [x]"
| "insertBy cmp x (y # ys) = (if cmp x y \<le> 0 then x # y # ys else y # insertBy cmp x ys)"

fun sortBy :: "('a \<Rightarrow> 'a \<Rightarrow> int) \<Rightarrow> 'a list \<Rightarrow> 'a list" where
  "sortBy cmp [] = []"
| "sortBy cmp (x # xs) = insertBy cmp x (sortBy cmp xs)"

text \<open>
  \<open>rankDescending\<close> is the local \<open>sorted\<close> of \<open>pickLatest\<close>,
  \<open>versions.slice().sort(compareVersionsDesc)\<close>; \<open>pickLatest\<close> returns \<open>sorted[0]\<close>,
  which is \<open>undefined\<close> (\<open>None\<close>) for the empty array.
\<close>

definition rankDescending :: "(string \<Rightarrow> string \<Rightarrow> int) \<Rightarrow> string list \<Rightarrow> string list" where
  "rankDescending lc versions = sortBy (compareVersionsDesc lc) versions"

definition pickLatest :: "(string \<Rightarrow> string \<Rightarrow> int) \<Rightarrow> string list \<Rightarrow> string option" where
  "pickLatest lc versions = (case rankDescending lc versions of [] \<Rightarrow> None | v # _ \<Rightarrow> Some v)"



text \<open>
  A collation to run the ranker on concrete inputs: comparison by character code,
  shorter string first.
\<close>

fun ordinalCompare :: "string \<Rightarrow> string \<Rightarrow> int" where
  "ordinalCompare [] [] = 0"
| "ordinalCompare [] (y # ys) = - 1"
| "ordinalCompare (x # xs) [] = 1"
| "ordinalCompare (x # xs) (y # ys) =
     (if (of_char x :: nat) < of_char y then - 1
      else if (of_char y :: nat) < of_char x then 1
      else ordinalCompare xs ys)"


text \<open>
  A consistent comparison function, the condition under which the sort order of
  \<open>Array.prototype.sort\<close> is defined: it is reflexive, its sign is antisymmetric and
  "not after" is transitive. \<open>String.prototype.localeCompare\<close> is specified to be
  one on all strings.
\<close>

definition consistentCmp :: "('a \<Rightarrow> 'a \<Rightarrow> int) \<Rightarrow> bool" where
  "consistentCmp cmp \<longleftrightarrow>
     (\<forall>a. cmp a a = 0)
   \<and> (\<forall>a b. cmp a b < 0 \<longleftrightarrow> 0 < cmp b a)
   \<and> (\<forall>a b c. cmp a b \<le> 0 \<and> cmp b c \<le> 0 \<longrightarrow> cmp a c \<le> 0)"

text \<open>
  What a call of a stable sort may return for the input \<open>xs\<close>: a permutation of
  \<open>xs\<close> in which no element is followed by one that compares before it, and in
  which the elements that compare equal to any \<open>k\<close> are in their input order.
\<close>

definition stableSortOf :: "('a \<Rightarrow> 'a \<Rightarrow> int) \<Rightarrow> 'a list \<Rightarrow> 'a list \<Rightarrow> bool" where
  "stableSortOf cmp xs ys \<longleftrightarrow>
     mset ys = mset xs
   \<and> sorted_wrt (\<lambda>u v. \<not> cmp v u < 0) ys
   \<and> (\<forall>k. filter (\<lambda>v. cmp k v = 0) ys = filter (\<lambda>v. cmp k v = 0) xs)"




section \<open>The bulk command generate-latest (index.ts)\<close>

text \<open>
  The action of \<open>generate-latest\<close> calls the network, the file system and the generator
  subprocess. These are operations on a world \<open>'w\<close> that is not modelled further: each
  returns the new world and either a value or the message of the error it throws
  (\<open>e?.message ?? String(e)\<close>). \<open>materialize\<close> stands for the statements of the loop
  body after \<open>pickSpecFile\<close> and before the final \<open>console.log\<close> (URL, cache or
  download, generator, copy, scaffold); it returns \<open>finalDir\<close>.
\<close>

record opts =
  opt_ref :: string
  opt_out :: string
  opt_scope :: "string option"
  opt_pkgVersion :: string
  opt_cache :: bool

record 'w io =
  listApis :: "string \<Rightarrow> 'w \<Rightarrow> (string + string list) \<times> 'w"
  listVersions :: "string \<Rightarrow> string \<Rightarrow> 'w \<Rightarrow> (string + string list) \<times> 'w"
  listJsonFiles :: "string \<Rightarrow> string \<Rightarrow> string \<Rightarrow> 'w \<Rightarrow> (string + string list) \<times> 'w"
  materialize :: "opts \<Rightarrow> string \<Rightarrow> string \<Rightarrow> string \<Rightarrow> string \<Rightarrow> 'w \<Rightarrow> (string + string) \<times> 'w"

text \<open>
  The console is the list of the lines printed so far. The state of the command is the
  world and the console. Characters outside ASCII in the printed texts are written as
  their UTF-8 bytes.
\<close>

datatype line = Stdout string | Stderr string

definition arrow :: string where
  "arrow = [CHR 0xE2, CHR 0x86, CHR 0x92]"

definition crossMark :: string where
  "crossMark = [CHR 0xE2, CHR 0x9D, CHR 0x8C]"

text \<open>
  The statements inside the \<open>try\<close> of the loop body, for one API. The result is
  \<open>Inl e\<close> when a statement throws \<open>e\<close> out of the body, and \<open>Inr ()\<close> when the body
  ends or runs \<open>continue\<close>. The call of \<open>pickSpecFile\<close> has a \<open>try\<close> of its own whose
  \<open>catch\<close> runs \<open>continue\<close>. \<open>pickLatest\<close> is called on a non-empty array only; the
  template strings would print \<open>undefined\<close> for a missing result.
\<close>

definition latestOf :: "(string \<Rightarrow> string \<Rightarrow> int) \<Rightarrow> string list \<Rightarrow> string" where
  "latestOf lc versions = (case pickLatest lc versions of Some v \<Rightarrow> v | None \<Rightarrow> ''undefined'')"

definition apiBody ::
  "'w io \<Rightarrow> (string \<Rightarrow> string \<Rightarrow> int) \<Rightarrow> opts \<Rightarrow> string \<Rightarrow> 'w \<times> line list
     \<Rightarrow> (string + unit) \<times> ('w \<times> line list)" where
  "apiBody io lc opts api st =
     (case st of (w, console) \<Rightarrow>
        (case listVersions io api (opt_ref opts) w of
           (Inl e, w1) \<Rightarrow> (Inl e, (w1, console))
         | (Inr versions, w1) \<Rightarrow>
             if length versions = 0 then (Inr (), (w1, console))
             else
               (let latest = latestOf lc versions
                in case listJsonFiles io api latest (opt_ref opts) w1 of
                     (Inl e, w2) \<Rightarrow> (Inl e, (w2, console))
                   | (Inr jsons, w2) \<Rightarrow>
                       (case pickSpecFile api jsons None of
                          Inl err \<Rightarrow> (Inr (), (w2, console))
                        | Inr chosen \<Rightarrow>
                            (case materialize io opts api latest chosen
                                    (pkgName (opt_scope opts) api latest) w2 of
                               (Inl e, w3) \<Rightarrow> (Inl e, (w3, console))
                             | (Inr finalDir, w3) \<Rightarrow>
                                 (Inr (), (w3, console @
                                    [Stdout (api @ ''@'' @ latest @ '' '' @ arrow @ '' '' @ finalDir)])))))))"

text \<open>
  The loop body: \<open>try { ... } catch (e) { console.error(`Error en ${api}: ...`) }\<close>.
\<close>

definition errorLine :: "string \<Rightarrow> string \<Rightarrow> line" where
  "errorLine api e = Stderr (''Error en '' @ api @ '': '' @ e)"

definition tryApi ::
  "'w io \<Rightarrow> (string \<Rightarrow> string \<Rightarrow> int) \<Rightarrow> opts \<Rightarrow> string \<Rightarrow> 'w \<times> line list
     \<Rightarrow> (string + unit) \<times> ('w \<times> line list)" where
  "tryApi io lc opts api st =
     (case apiBody io lc opts api st of
        (Inl e, (w, console)) \<Rightarrow> (Inr (), (w, console @ [errorLine api e]))
      | (Inr u, st') \<Rightarrow> (Inr (), st'))"

text \<open>
  A \<open>for (const x of xs) body\<close> statement: an error thrown by the body ends the loop
  and is thrown by the statement.
\<close>

fun forOf :: "('a \<Rightarrow> 's \<Rightarrow> (string + unit) \<times> 's) \<Rightarrow> 'a list \<Rightarrow> 's \<Rightarrow> (string + unit) \<times> 's" where
  "forOf body [] st = (Inr (), st)"
| "forOf body (x # xs) st =
     (case body x st of
        (Inl e, st') \<Rightarrow> (Inl e, st')
      | (Inr u, st') \<Rightarrow> forOf body xs st')"

text \<open>
  The action of \<open>generate-latest\<close>, from a world and an empty console, to the exit
  status and the final state. \<open>die(msg)\<close> prints the message and exits with status 1.
\<close>

definition die :: "string \<Rightarrow> 'w \<times> line list \<Rightarrow> nat \<times> ('w \<times> line list)" where
  "die msg st = (1, (fst st, snd st @ [Stderr (crossMark @ '' '' @ msg)]))"

definition generateLatest ::
  "'w io \<Rightarrow> (string \<Rightarrow> string \<Rightarrow> int) \<Rightarrow> opts \<Rightarrow> 'w \<Rightarrow> nat \<times> ('w \<times> line list)" where
  "generateLatest io lc opts w =
     (case listApis io (opt_ref opts) w of
        (Inl e, w1) \<Rightarrow> die e (w1, [])
      | (Inr apis, w1) \<Rightarrow>
          (case forOf (tryApi io lc opts) apis (w1, []) of
             (Inl e, st) \<Rightarrow> die e st
           | (Inr u, (w2, console)) \<Rightarrow> (0, (w2, console @ [Stdout ''Finalizado.'']))))"

text \<open>
  A world to run the command on: the world is the list of the packages materialized so
  far; the listing of \<open>bad\<close> fails, \<open>amb\<close> has two documents none of which is preferred.
\<close>

definition demoOpts :: opts where
  "demoOpts = \<lparr>opt_ref = ''master'', opt_out = ''packages/generated'', opt_scope = None,
                opt_pkgVersion = ''0.1.0'', opt_cache = True\<rparr>"

definition demoIo :: "(string list) io" where
  "demoIo =
     \<lparr>listApis = (\<lambda>ref w. (Inr [''bad'', ''amb'', ''good''], w)),
      listVersions = (\<lambda>api ref w.
         if api = ''bad'' then (Inl ''HTTP 500'', w) else (Inr [''7.0'', ''7.1''], w)),
      listJsonFiles = (\<lambda>api version ref w.
         (Inr (if api = ''amb'' then [''x.json'', ''y.json''] else [api @ ''.json'']), w)),
      materialize = (\<lambda>opts api latest chosen pkg w. (Inr (''out/'' @ pkg), w @ [pkg]))\<rparr>"

section \<open>Theorems: selector\<close>

lemma find_preferred:
  "find (\<lambda>p. p \<in> set jsons) (preferred api) =
     (if api @ ''.json'' \<in> set jsons then Some (api @ ''.json'')
      else if api @ ''s.json'' \<in> set jsons then Some (api @ ''s.json'')
      else None)"
  by (simp add: preferred_def)

text \<open>
  C1. Without an override: an empty candidate list fails with the NotFound error
  "no JSONs"; a list of exactly one member yields that member; a list of two or more
  members yields the first of \<open>api.json\<close>, \<open>apis.json\<close> that is a member, and fails
  with the AmbiguousSelection error carrying the whole candidate list (its message
  ends with the joined candidates) when neither is a member.
\<close>

theorem pickSpecFile_no_override:
  "(jsons = [] \<longrightarrow>
      pickSpecFile api jsons None = Inl NoJsons \<and> kind_of NoJsons = NotFound)
   \<and> (\<forall>x. jsons = [x] \<longrightarrow> pickSpecFile api jsons None = Inr x)
   \<and> (2 \<le> length jsons \<longrightarrow>
        (api @ ''.json'' \<in> set jsons \<longrightarrow>
           pickSpecFile api jsons None = Inr (api @ ''.json''))
      \<and> (api @ ''.json'' \<notin> set jsons \<and> api @ ''s.json'' \<in> set jsons \<longrightarrow>
           pickSpecFile api jsons None = Inr (api @ ''s.json''))
      \<and> (api @ ''.json'' \<notin> set jsons \<and> api @ ''s.json'' \<notin> set jsons \<longrightarrow>
           pickSpecFile api jsons None = Inl (CannotChoose jsons)
           \<and> kind_of (CannotChoose jsons) = AmbiguousSelection
           \<and> (\<exists>pre. message (CannotChoose jsons) = pre @ joinStr '', '' jsons)))"
proof (intro conjI impI allI)
  assume "2 \<le> length jsons"
  then have two: "jsons \<noteq> []" "length jsons \<noteq> Suc 0" by auto
  {
    assume "api @ ''.json'' \<in> set jsons"
    then show "pickSpecFile api jsons None = Inr (api @ ''.json'')"
      using two by (simp add: pickSpecFile_def find_preferred)
  }
  {
    assume "api @ ''.json'' \<notin> set jsons \<and> api @ ''s.json'' \<in> set jsons"
    then show "pickSpecFile api jsons None = Inr (api @ ''s.json'')"
      using two by (simp add: pickSpecFile_def find_preferred)
  }
  {
    assume "api @ ''.json'' \<notin> set jsons \<and> api @ ''s.json'' \<notin> set jsons"
    then show "pickSpecFile api jsons None = Inl (CannotChoose jsons)"
      using two by (simp add: pickSpecFile_def find_preferred)
  }
  show "\<exists>pre. message (CannotChoose jsons) = pre @ joinStr '', '' jsons"
    unfolding message_def error.case append_assoc [symmetric] by (rule exI) (rule refl)
qed (simp_all add: pickSpecFile_def)

theorem pickSpecFile_no_override_witness:
  "pickSpecFile ''a'' [] None = Inl NoJsons
   \<and> pickSpecFile ''a'' [''x.json''] None = Inr ''x.json''
   \<and> pickSpecFile ''a'' [''a.json'', ''b.json''] None = Inr ''a.json''
   \<and> pickSpecFile ''a'' [''as.json'', ''b.json''] None = Inr ''as.json''
   \<and> pickSpecFile ''a'' [''x.json'', ''y.json''] None
       = Inl (CannotChoose [''x.json'', ''y.json''])"
  using pickSpecFile_no_override [of "[]" "''a''"]
    pickSpecFile_no_override [of "[''x.json'']" "''a''"]
    pickSpecFile_no_override [of "[''a.json'', ''b.json'']" "''a''"]
    pickSpecFile_no_override [of "[''as.json'', ''b.json'']" "''a''"]
    pickSpecFile_no_override [of "[''x.json'', ''y.json'']" "''a''"]
  by simp

text \<open>
  C2, as stated, fails: the empty string is an override value the commands can pass
  (\<open>--file ""\<close>), it is not a candidate, and the selector does not fail with NotFound
  but returns the only candidate.
\<close>

theorem pickSpecFile_override_counterexample:
  "'''' \<notin> set [''x.json'']
   \<and> pickSpecFile ''a'' [''x.json''] (Some '''') = Inr ''x.json''"
  by (simp add: pickSpecFile_def)

text \<open>
  C2, amended. For every candidate list and every non-empty override: the selector
  returns the override if and only if it is a member of the candidate list, and
  otherwise fails with the NotFound error that carries the override and the whole
  candidate list (its message ends with the joined candidates).
\<close>

theorem pickSpecFile_override:
  "f \<noteq> [] \<Longrightarrow>
     (pickSpecFile api jsons (Some f) = Inr f \<longleftrightarrow> f \<in> set jsons)
   \<and> (f \<notin> set jsons \<longrightarrow>
        pickSpecFile api jsons (Some f) = Inl (FileNotExists f jsons)
        \<and> kind_of (FileNotExists f jsons) = NotFound
        \<and> (\<exists>pre. message (FileNotExists f jsons) = pre @ joinStr '', '' jsons))"
proof (intro conjI impI)
  show "\<exists>pre. message (FileNotExists f jsons) = pre @ joinStr '', '' jsons"
    unfolding message_def error.case append_assoc [symmetric] by (rule exI) (rule refl)
qed (simp_all add: pickSpecFile_def)

theorem pickSpecFile_override_witness:
  "''b.json'' \<noteq> []
   \<and> pickSpecFile ''a'' [''a.json'', ''b.json''] (Some ''b.json'') = Inr ''b.json''
   \<and> ''c.json'' \<notin> set [''a.json'', ''b.json'']
   \<and> pickSpecFile ''a'' [''a.json'', ''b.json''] (Some ''c.json'')
       = Inl (FileNotExists ''c.json'' [''a.json'', ''b.json''])"
  using pickSpecFile_override [of "''b.json''" "''a''" "[''a.json'', ''b.json'']"]
    pickSpecFile_override [of "''c.json''" "''a''" "[''a.json'', ''b.json'']"]
  by simp

text \<open>
  C10. An empty-string override behaves exactly as no override: the result is that of
  the call without override, and it is never the NotFound error for the override.
\<close>

theorem pickSpecFile_empty_override:
  "pickSpecFile api jsons (Some '''') = pickSpecFile api jsons None
   \<and> pickSpecFile api jsons (Some '''') \<noteq> Inl (FileNotExists '''' jsons)"
  by (simp add: pickSpecFile_def split: option.splits)

section \<open>Theorems: package naming\<close>

text \<open>
  C9, as stated, fails: the empty scope (\<open>--scope ""\<close>) does not start with \<open>@\<close>, and
  no \<open>@\<close> is prepended: the package name is the unscoped one.
\<close>

theorem pkgName_counterexample:
  "\<not> startsWithAt ''''
   \<and> pkgName (Some '''') ''graph'' ''7.1'' = ''azure-devops-graph-7.1''
   \<and> pkgName (Some '''') ''graph'' ''7.1'' \<noteq> ''@'' @ '''' @ ''/azure-devops-graph-7.1''"
  by (simp add: pkgName_def normalizeScope_def startsWithAt_def baseName_def)

text \<open>
  C9, amended. A non-empty scope not starting with \<open>@\<close> has \<open>@\<close> prepended before it is
  joined as \<open>scope/azure-devops-api-version\<close>; a scope starting with \<open>@\<close> is used
  unchanged; with no scope, or the empty scope, the package name is the unscoped
  \<open>azure-devops-api-version\<close>.
\<close>

theorem pkgName_normalized:
  "(s \<noteq> [] \<and> \<not> startsWithAt s \<longrightarrow>
      pkgName (Some s) api version = ''@'' @ s @ ''/'' @ ''azure-devops-'' @ api @ ''-'' @ version)
   \<and> (startsWithAt s \<longrightarrow>
      pkgName (Some s) api version = s @ ''/'' @ ''azure-devops-'' @ api @ ''-'' @ version)
   \<and> pkgName None api version = ''azure-devops-'' @ api @ ''-'' @ version
   \<and> pkgName (Some '''') api version = ''azure-devops-'' @ api @ ''-'' @ version"
  by (auto simp add: pkgName_def normalizeScope_def startsWithAt_def baseName_def
      split: list.splits)

theorem pkgName_normalized_witness:
  "pkgName (Some ''valdepeace'') ''graph'' ''7.1'' = ''@valdepeace/azure-devops-graph-7.1''
   \<and> pkgName (Some ''@valdepeace'') ''graph'' ''7.1'' = ''@valdepeace/azure-devops-graph-7.1''
   \<and> pkgName None ''graph'' ''7.1'' = ''azure-devops-graph-7.1''"
  using pkgName_normalized [of "''valdepeace''" "''graph''" "''7.1''"]
    pkgName_normalized [of "''@valdepeace''" "''graph''" "''7.1''"]
  by (simp add: startsWithAt_def)

section \<open>Theorems: re-export entry file\<close>









section \<open>Theorems: version ranker\<close>

subsection \<open>Tokens\<close>

lemma splitNonDigits_digits: "list_all (list_all isDigit) (splitNonDigits v)"
proof (induction v rule: splitNonDigits.induct)
  case 1
  then show ?case by simp
next
  case (2 d ds)
  show ?case
  proof (cases "isDigit d")
    case True
    show ?thesis
    proof (cases "splitNonDigits ds")
      case Nil
      then show ?thesis using True by simp
    next
      case (Cons q qs)
      then show ?thesis using True "2.IH"(1) [OF True] by simp
    qed
  next
    case False
    then show ?thesis using "2.IH"(2) [OF False] by simp
  qed
qed

lemma versionTokens_pieces:
  assumes "p \<in> set (filter (\<lambda>p. p \<noteq> []) (splitNonDigits v))"
  shows "p \<noteq> [] \<and> list_all isDigit p
       \<and> parseInt10 p = foldl (\<lambda>n c. 10 * n + digitVal c) 0 p"
proof -
  have d: "list_all isDigit p"
    using assms splitNonDigits_digits [of v] unfolding list_all_iff [of _ "splitNonDigits v"]
    by auto
  then have tw: "takeWhile isDigit p = p"
    by (simp add: takeWhile_eq_all_conv list_all_iff)
  have "parseInt10 p = foldl (\<lambda>n c. 10 * n + digitVal c) 0 p"
    unfolding parseInt10_def tw ..
  then show ?thesis using assms d by simp
qed

subsection \<open>The comparator within a partition\<close>











subsection \<open>Stable labels first\<close>

lemma compareVersionsDesc_mixed:
  "isStableVersion a \<Longrightarrow> \<not> isStableVersion b \<Longrightarrow>
     compareVersionsDesc lc a b = - 1 \<and> compareVersionsDesc lc b a = 1"
  by (simp add: compareVersionsDesc_def)

lemma set_insertBy: "set (insertBy cmp x ys) = insert x (set ys)"
  by (induction ys) auto

lemma insertBy_stable_first:
  assumes "sorted_wrt (\<lambda>u v. isStableVersion v \<longrightarrow> isStableVersion u) ys"
  shows "sorted_wrt (\<lambda>u v. isStableVersion v \<longrightarrow> isStableVersion u)
           (insertBy (compareVersionsDesc lc) x ys)"
  using assms
proof (induction ys)
  case Nil
  then show ?case by simp
next
  case (Cons y ys)
  show ?case
  proof (cases "compareVersionsDesc lc x y \<le> 0")
    case True
    then have "isStableVersion y \<longrightarrow> isStableVersion x"
      using compareVersionsDesc_mixed [of y x lc] by auto
    then show ?thesis using True Cons.prems by auto
  next
    case False
    then have "isStableVersion x \<longrightarrow> isStableVersion y"
      using compareVersionsDesc_mixed [of x y lc] by auto
    then show ?thesis using False Cons by (auto simp add: set_insertBy)
  qed
qed

lemma rankDescending_stable_first:
  "sorted_wrt (\<lambda>u v. isStableVersion v \<longrightarrow> isStableVersion u) (rankDescending lc versions)"
  unfolding rankDescending_def
  by (induction versions) (simp_all add: insertBy_stable_first)

subsection \<open>Consistent comparators\<close>

lemma cc_refl: "consistentCmp cmp \<Longrightarrow> cmp a a = 0"
  by (simp add: consistentCmp_def)

lemma cc_flip: "consistentCmp cmp \<Longrightarrow> cmp a b < 0 \<longleftrightarrow> 0 < cmp b a"
  by (simp add: consistentCmp_def)

lemma cc_trans: "consistentCmp cmp \<Longrightarrow> cmp a b \<le> 0 \<Longrightarrow> cmp b c \<le> 0 \<Longrightarrow> cmp a c \<le> 0"
  unfolding consistentCmp_def by blast

lemma cc_eq_sym: 
  assumes "consistentCmp cmp" shows "cmp a b = 0 \<longleftrightarrow> cmp b a = 0"
  using cc_flip [OF assms, of a b] cc_flip [OF assms, of b a] by linarith

lemma cc_le_flip:
  assumes "consistentCmp cmp" shows "cmp a b \<le> 0 \<longleftrightarrow> \<not> cmp b a < 0"
  using cc_flip [OF assms, of b a] by linarith



lemma cc_eq_trans:
  assumes cc: "consistentCmp cmp" and ab: "cmp a b = 0" and bc: "cmp b c = 0"
  shows "cmp a c = 0"
proof -
  have "cmp a c \<le> 0" using cc_trans [OF cc, of a b c] ab bc by simp
  moreover have "cmp c a \<le> 0"
    using cc_trans [OF cc, of c b a] ab bc cc_eq_sym [OF cc, of a b] cc_eq_sym [OF cc, of b c]
    by simp
  ultimately show ?thesis using cc_flip [OF cc, of a c] by linarith
qed




subsection \<open>The comparator of the ranker is consistent\<close>














subsection \<open>The stable sorted arrangement is unique\<close>

lemma mset_insertBy: "mset (insertBy cmp x ys) = add_mset x (mset ys)"
  by (induction ys) simp_all

lemma mset_sortBy: "mset (sortBy cmp xs) = mset xs"
  by (induction xs) (simp_all add: mset_insertBy)

lemma sorted_insertBy:
  assumes cc: "consistentCmp cmp"
    and "sorted_wrt (\<lambda>u v. \<not> cmp v u < 0) ys"
  shows "sorted_wrt (\<lambda>u v. \<not> cmp v u < 0) (insertBy cmp x ys)"
  using assms(2)
proof (induction ys)
  case Nil
  then show ?case by simp
next
  case (Cons y ys)
  show ?case
  proof (cases "cmp x y \<le> 0")
    case True
    have "\<not> cmp w x < 0" if "w \<in> set (y # ys)" for w
    proof -
      have "cmp y w \<le> 0" using that Cons.prems cc_le_flip [OF cc, of y w] cc_refl [OF cc, of y]
        by auto
      then have "cmp x w \<le> 0" using cc_trans [OF cc True] by blast
      then show ?thesis using cc_le_flip [OF cc, of x w] by simp
    qed
    then show ?thesis using True Cons.prems by auto
  next
    case False
    then have "\<not> cmp x y < 0" by simp
    then show ?thesis using False Cons by (auto simp add: set_insertBy)
  qed
qed

lemma sorted_sortBy:
  "consistentCmp cmp \<Longrightarrow> sorted_wrt (\<lambda>u v. \<not> cmp v u < 0) (sortBy cmp xs)"
  by (induction xs) (simp_all add: sorted_insertBy)

lemma filter_insertBy:
  assumes cc: "consistentCmp cmp"
  shows "filter (\<lambda>v. cmp k v = 0) (insertBy cmp x ys) =
           (if cmp k x = 0 then x # filter (\<lambda>v. cmp k v = 0) ys
            else filter (\<lambda>v. cmp k v = 0) ys)"
proof (induction ys)
  case Nil
  then show ?case by simp
next
  case (Cons y ys)
  show ?case
  proof (cases "cmp x y \<le> 0")
    case True
    then show ?thesis by simp
  next
    case False
    have "\<not> (cmp k x = 0 \<and> cmp k y = 0)"
    proof
      assume h: "cmp k x = 0 \<and> cmp k y = 0"
      then have "cmp x k = 0" using cc_eq_sym [OF cc, of k x] by simp
      then have "cmp x y = 0" using h cc_eq_trans [OF cc, of x k y] by simp
      then show False using False by simp
    qed
    then show ?thesis using False Cons by auto
  qed
qed

lemma filter_sortBy:
  "consistentCmp cmp \<Longrightarrow>
     filter (\<lambda>v. cmp k v = 0) (sortBy cmp xs) = filter (\<lambda>v. cmp k v = 0) xs"
  by (induction xs) (simp_all add: filter_insertBy)

lemma stableSortOf_sortBy:
  "consistentCmp cmp \<Longrightarrow> stableSortOf cmp xs (sortBy cmp xs)"
  by (simp add: stableSortOf_def mset_sortBy sorted_sortBy filter_sortBy)

lemma sorted_classes_unique:
  assumes cc: "consistentCmp cmp"
  shows "sorted_wrt (\<lambda>u v. \<not> cmp v u < 0) ys \<Longrightarrow> sorted_wrt (\<lambda>u v. \<not> cmp v u < 0) zs \<Longrightarrow>
         (\<forall>k. filter (\<lambda>v. cmp k v = 0) ys = filter (\<lambda>v. cmp k v = 0) zs) \<Longrightarrow> ys = zs"
proof (induction ys arbitrary: zs)
  case Nil
  show ?case
  proof (cases zs)
    case Nil
    then show ?thesis by simp
  next
    case (Cons z zs')
    have "filter (\<lambda>v. cmp z v = 0) zs = []" using Nil.prems(3) by simp
    then show ?thesis using Cons cc_refl [OF cc, of z] by simp
  qed
next
  case (Cons y ys)
  have fy: "filter (\<lambda>v. cmp y v = 0) zs = y # filter (\<lambda>v. cmp y v = 0) ys"
    using Cons.prems(3) [rule_format, of y, symmetric] cc_refl [OF cc, of y] by simp
  then obtain z zs' where zs: "zs = z # zs'" by (cases zs) auto
  have "z \<in> set (filter (\<lambda>v. cmp z v = 0) zs)" using zs cc_refl [OF cc, of z] by simp
  then have "z \<in> set (filter (\<lambda>v. cmp z v = 0) (y # ys))" using Cons.prems(3) by simp
  then have zin: "z \<in> set (y # ys)" by (auto split: if_splits)
  have "y \<in> set (filter (\<lambda>v. cmp y v = 0) zs)" using fy by simp
  then have yin: "y \<in> set (z # zs')" using zs by (auto split: if_splits)
  have "\<not> cmp z y < 0" using zin Cons.prems(1) cc_refl [OF cc, of y] by auto
  moreover have "\<not> cmp y z < 0" using yin Cons.prems(2) zs cc_refl [OF cc, of z] by auto
  ultimately have yz: "cmp y z = 0" using cc_flip [OF cc, of z y] by linarith
  then have "filter (\<lambda>v. cmp y v = 0) zs = z # filter (\<lambda>v. cmp y v = 0) zs'"
    using zs by simp
  then have "z = y" using fy by simp
  have "\<forall>k. filter (\<lambda>v. cmp k v = 0) ys = filter (\<lambda>v. cmp k v = 0) zs'"
  proof
    fix k
    have "filter (\<lambda>v. cmp k v = 0) (y # ys) = filter (\<lambda>v. cmp k v = 0) (y # zs')"
      using Cons.prems(3) zs \<open>z = y\<close> by simp
    then show "filter (\<lambda>v. cmp k v = 0) ys = filter (\<lambda>v. cmp k v = 0) zs'"
      by (cases "cmp k y = 0") simp_all
  qed
  moreover have "sorted_wrt (\<lambda>u v. \<not> cmp v u < 0) ys" "sorted_wrt (\<lambda>u v. \<not> cmp v u < 0) zs'"
    using Cons.prems zs by simp_all
  ultimately have "ys = zs'" using Cons.IH by blast
  then show ?case using zs \<open>z = y\<close> by simp
qed

lemma stableSortOf_unique:
  assumes "consistentCmp cmp" "stableSortOf cmp xs ys" "stableSortOf cmp xs zs"
  shows "ys = zs"
  using assms sorted_classes_unique [of cmp ys zs] by (simp add: stableSortOf_def)

lemma sortBy_unique:
  "consistentCmp cmp \<Longrightarrow> stableSortOf cmp xs ys \<Longrightarrow> ys = sortBy cmp xs"
  using stableSortOf_unique stableSortOf_sortBy by blast

subsection \<open>A consistent collation\<close>







subsection \<open>Evaluations on concrete labels\<close>

lemma stable_71: "isStableVersion ''7.1''"
  by code_simp

lemma prerelease_72: "\<not> isStableVersion ''7.2-PREVIEW''"
  by code_simp











subsection \<open>Claims about the ranker\<close>

text \<open>
  C3. A stable label is ordered before a prerelease label: for \<open>a\<close> stable and \<open>b\<close>
  prerelease the comparator is negative on \<open>(a, b)\<close> and positive on \<open>(b, a)\<close>, and in
  the ranked list no prerelease label precedes a stable one.
\<close>

theorem stable_before_prerelease:
  "(isStableVersion a \<and> \<not> isStableVersion b \<longrightarrow>
      compareVersionsDesc lc a b < 0 \<and> 0 < compareVersionsDesc lc b a)
   \<and> sorted_wrt (\<lambda>u v. isStableVersion v \<longrightarrow> isStableVersion u) (rankDescending lc versions)"
  using compareVersionsDesc_mixed [of a b lc] rankDescending_stable_first [of lc versions]
  by auto

theorem stable_before_prerelease_witness:
  "isStableVersion ''7.1'' \<and> \<not> isStableVersion ''7.2-PREVIEW''
   \<and> compareVersionsDesc ordinalCompare ''7.1'' ''7.2-PREVIEW'' < 0
   \<and> 0 < compareVersionsDesc ordinalCompare ''7.2-PREVIEW'' ''7.1''"
  using stable_before_prerelease [of "''7.1''" "''7.2-PREVIEW''" ordinalCompare "[]"]
    stable_71 prerelease_72
  by simp



text \<open>
  C5, as stated, fails in its first half: the ranking of \<open>7.1, 7.2-preview, 7.0\<close> is
  not \<open>7.2, 7.1, 7.0\<close>; the label \<open>7.2\<close> is not in the input.
\<close>

theorem rankDescending_example_counterexample:
  "rankDescending ordinalCompare [''7.1'', ''7.2-preview'', ''7.0''] \<noteq> [''7.2'', ''7.1'', ''7.0'']"
  by code_simp

text \<open>
  C5, amended. The ranking of \<open>7.1, 7.2-preview, 7.0\<close> is \<open>7.1, 7.0, 7.2-preview\<close>, and
  the ranking of \<open>7.0, 7.1-preview, 7.2\<close> is \<open>7.2, 7.0, 7.1-preview\<close>, whatever the
  collation.
\<close>

theorem rankDescending_examples:
  "rankDescending lc [''7.1'', ''7.2-preview'', ''7.0''] = [''7.1'', ''7.0'', ''7.2-preview'']
   \<and> rankDescending lc [''7.0'', ''7.1-preview'', ''7.2''] = [''7.2'', ''7.0'', ''7.1-preview'']"
  by code_simp



section \<open>Theorems: the bulk command\<close>

lemma sortBy_Nil_iff: "sortBy cmp xs = [] \<longleftrightarrow> xs = []"
proof (cases xs)
  case Nil
  then show ?thesis by simp
next
  case (Cons x xs')
  have "insertBy cmp x ys \<noteq> []" for ys by (cases ys) simp_all
  then show ?thesis using Cons by simp
qed

lemma pickLatest_Some:
  assumes "versions \<noteq> []"
  shows "\<exists>v. pickLatest lc versions = Some v \<and> v \<in> set versions"
proof -
  have "rankDescending lc versions \<noteq> []"
    using assms by (simp add: rankDescending_def sortBy_Nil_iff)
  then obtain v vs where r: "rankDescending lc versions = v # vs"
    by (cases "rankDescending lc versions") auto
  then have "v \<in> set (sortBy (compareVersionsDesc lc) versions)"
    by (simp add: rankDescending_def)
  then have "v \<in># mset (sortBy (compareVersionsDesc lc) versions)" by simp
  then have "v \<in> set versions" unfolding mset_sortBy by simp
  then show ?thesis using r by (simp add: pickLatest_def)
qed

lemma tryApi_fst: "fst (tryApi io lc opts api st) = Inr ()"
  by (simp add: tryApi_def split: prod.splits sum.splits)

lemma forOf_total:
  assumes "\<And>x s. fst (body x s) = Inr ()"
  shows "forOf body xs st = (Inr (), foldl (\<lambda>s x. snd (body x s)) st xs)"
proof (induction xs arbitrary: st)
  case Nil
  then show ?case by simp
next
  case (Cons x xs)
  obtain r st' where b: "body x st = (r, st')" by (cases "body x st")
  then have "r = Inr ()" using assms [of x st] by simp
  then show ?case using b Cons.IH [of st'] by simp
qed

lemma forOf_tryApi:
  "forOf (tryApi io lc opts) apis st =
     (Inr (), foldl (\<lambda>s api. snd (tryApi io lc opts api s)) st apis)"
  by (rule forOf_total) (rule tryApi_fst)

lemma apiBody_selection_fails:
  assumes "listVersions io api (opt_ref opts) w = (Inr versions, w1)" "versions \<noteq> []"
    and "listJsonFiles io api (latestOf lc versions) (opt_ref opts) w1 = (Inr jsons, w2)"
    and "pickSpecFile api jsons None = Inl err"
  shows "apiBody io lc opts api (w, console) = (Inr (), (w2, console))"
  using assms by (simp add: apiBody_def Let_def)

lemma generateLatest_completes:
  assumes "listApis io (opt_ref opts) w = (Inr apis, w1)"
  shows "fst (generateLatest io lc opts w) = 0
       \<and> last (snd (snd (generateLatest io lc opts w))) = Stdout ''Finalizado.''"
  using assms by (simp add: generateLatest_def forOf_tryApi split: prod.splits)

subsection \<open>A run with a failing and an ambiguous API\<close>

lemma demo_bad: "apiBody demoIo ordinalCompare demoOpts ''bad'' ([], []) = (Inl ''HTTP 500'', ([], []))"
  by code_simp

lemma demo_amb_versions:
  "listVersions demoIo ''amb'' (opt_ref demoOpts) [] = (Inr [''7.0'', ''7.1''], [])"
  by code_simp

lemma demo_amb_jsons:
  "listJsonFiles demoIo ''amb'' (latestOf ordinalCompare [''7.0'', ''7.1'']) (opt_ref demoOpts) []
     = (Inr [''x.json'', ''y.json''], [])"
  by code_simp

lemma demo_amb_pick:
  "pickSpecFile ''amb'' [''x.json'', ''y.json''] None = Inl (CannotChoose [''x.json'', ''y.json''])"
  by code_simp

lemma demo_apis: "listApis demoIo (opt_ref demoOpts) [] = (Inr [''bad'', ''amb'', ''good''], [])"
  by code_simp

lemma demo_run:
  "generateLatest demoIo ordinalCompare demoOpts [] =
     (0, ([''azure-devops-good-7.1''],
          [Stderr ''Error en bad: HTTP 500'',
           Stdout (''good@7.1 '' @ arrow @ '' out/azure-devops-good-7.1''),
           Stdout ''Finalizado.'']))"
  by code_simp

lemma demo_good:
  "apiBody demoIo ordinalCompare demoOpts ''good'' ([], []) =
     (Inr (), ([''azure-devops-good-7.1''],
               [Stdout (''good@7.1 '' @ arrow @ '' out/azure-devops-good-7.1'')]))"
  by code_simp

subsection \<open>Claims about the bulk command\<close>

text \<open>
  C7, as stated, fails: a failure of the spec-file selection while processing an API is
  caught, but it is not logged. The API \<open>amb\<close> has two documents none of which is
  preferred; the loop over it ends normally and prints nothing.
\<close>

theorem bulk_failure_logged_counterexample:
  "pickSpecFile ''amb'' [''x.json'', ''y.json''] None = Inl (CannotChoose [''x.json'', ''y.json''])
   \<and> forOf (tryApi demoIo ordinalCompare demoOpts) [''amb''] ([], []) = (Inr (), ([], []))"
  by code_simp

text \<open>
  C7, amended. An error thrown while processing one API is caught and logged, and the
  iteration proceeds with the next API; a failure of the spec-file selection is caught
  and skipped without a log line. No error leaves the loop; for every position in the
  list, whatever happened at the API there, the rest of the list is processed from the
  state that API left; and once the APIs are listed, the command prints its final line
  and exits with status 0.
\<close>

theorem bulk_loop_continues:
  "fst (forOf (tryApi io lc opts) apis st) = Inr ()
   \<and> (\<forall>xs api ys. apis = xs @ api # ys \<longrightarrow>
         snd (forOf (tryApi io lc opts) apis st) =
           snd (forOf (tryApi io lc opts) ys
                 (snd (tryApi io lc opts api (snd (forOf (tryApi io lc opts) xs st))))))
   \<and> (\<forall>e w console. apiBody io lc opts a st = (Inl e, (w, console)) \<longrightarrow>
         tryApi io lc opts a st = (Inr (), (w, console @ [errorLine a e])))
   \<and> (\<forall>st'. apiBody io lc opts a st = (Inr (), st') \<longrightarrow>
         tryApi io lc opts a st = (Inr (), st'))
   \<and> (\<forall>versions w1 jsons w2 err.
         listVersions io a (opt_ref opts) (fst st) = (Inr versions, w1) \<and> versions \<noteq> []
         \<and> listJsonFiles io a (latestOf lc versions) (opt_ref opts) w1 = (Inr jsons, w2)
         \<and> pickSpecFile a jsons None = Inl err \<longrightarrow>
         tryApi io lc opts a st = (Inr (), (w2, snd st)))
   \<and> (\<forall>w w1. listApis io (opt_ref opts) w = (Inr apis, w1) \<longrightarrow>
         fst (generateLatest io lc opts w) = 0
         \<and> last (snd (snd (generateLatest io lc opts w))) = Stdout ''Finalizado.'')"
proof (intro conjI allI impI)
  show "fst (forOf (tryApi io lc opts) apis st) = Inr ()"
    by (simp add: forOf_tryApi)
next
  fix xs api ys assume "apis = xs @ api # ys"
  then show "snd (forOf (tryApi io lc opts) apis st) =
           snd (forOf (tryApi io lc opts) ys
                 (snd (tryApi io lc opts api (snd (forOf (tryApi io lc opts) xs st)))))"
    by (simp add: forOf_tryApi)
next
  fix e w console assume "apiBody io lc opts a st = (Inl e, (w, console))"
  then show "tryApi io lc opts a st = (Inr (), (w, console @ [errorLine a e]))"
    by (simp add: tryApi_def)
next
  fix st' assume "apiBody io lc opts a st = (Inr (), st')"
  then show "tryApi io lc opts a st = (Inr (), st')"
    by (simp add: tryApi_def)
next
  fix versions w1 jsons w2 err
  assume h: "listVersions io a (opt_ref opts) (fst st) = (Inr versions, w1) \<and> versions \<noteq> []
         \<and> listJsonFiles io a (latestOf lc versions) (opt_ref opts) w1 = (Inr jsons, w2)
         \<and> pickSpecFile a jsons None = Inl err"
  obtain w console where st: "st = (w, console)" by (cases st)
  have "apiBody io lc opts a (w, console) = (Inr (), (w2, console))"
    using h unfolding st fst_conv by (intro apiBody_selection_fails) blast+
  then show "tryApi io lc opts a st = (Inr (), (w2, snd st))"
    unfolding st by (simp add: tryApi_def)
next
  fix w w1 assume "listApis io (opt_ref opts) w = (Inr apis, w1)"
  then have "fst (generateLatest io lc opts w) = 0
       \<and> last (snd (snd (generateLatest io lc opts w))) = Stdout ''Finalizado.''"
    by (rule generateLatest_completes)
  then show "fst (generateLatest io lc opts w) = 0"
    and "last (snd (snd (generateLatest io lc opts w))) = Stdout ''Finalizado.''"
    by simp_all
qed

theorem bulk_loop_continues_witness:
  "tryApi demoIo ordinalCompare demoOpts ''bad'' ([], [])
       = (Inr (), ([], [errorLine ''bad'' ''HTTP 500'']))
   \<and> tryApi demoIo ordinalCompare demoOpts ''amb'' ([], []) = (Inr (), ([], []))
   \<and> tryApi demoIo ordinalCompare demoOpts ''good'' ([], []) =
       (Inr (), ([''azure-devops-good-7.1''],
                 [Stdout (''good@7.1 '' @ arrow @ '' out/azure-devops-good-7.1'')]))
   \<and> snd (forOf (tryApi demoIo ordinalCompare demoOpts) [''bad'', ''amb'', ''good''] ([], []))
       = snd (forOf (tryApi demoIo ordinalCompare demoOpts) [''amb'', ''good'']
               ([], [errorLine ''bad'' ''HTTP 500'']))
   \<and> fst (generateLatest demoIo ordinalCompare demoOpts []) = 0
   \<and> last (snd (snd (generateLatest demoIo ordinalCompare demoOpts []))) = Stdout ''Finalizado.''"
proof -
  note bad = bulk_loop_continues [of demoIo ordinalCompare demoOpts
      "[''bad'', ''amb'', ''good'']" "([], [])" "''bad''"]
  note amb = bulk_loop_continues [of demoIo ordinalCompare demoOpts
      "[''bad'', ''amb'', ''good'']" "([], [])" "''amb''", unfolded fst_conv snd_conv]
  note good = bulk_loop_continues [of demoIo ordinalCompare demoOpts
      "[''bad'', ''amb'', ''good'']" "([], [])" "''good''"]
  have 1: "tryApi demoIo ordinalCompare demoOpts ''bad'' ([], [])
       = (Inr (), ([], [errorLine ''bad'' ''HTTP 500'']))"
    using bad demo_bad by simp
  have 2: "tryApi demoIo ordinalCompare demoOpts ''amb'' ([], []) = (Inr (), ([], []))"
    using amb demo_amb_versions demo_amb_jsons demo_amb_pick by blast
  have 3: "tryApi demoIo ordinalCompare demoOpts ''good'' ([], []) =
       (Inr (), ([''azure-devops-good-7.1''],
                 [Stdout (''good@7.1 '' @ arrow @ '' out/azure-devops-good-7.1'')]))"
    using good demo_good by simp
  have "\<forall>xs api ys. [''bad'', ''amb'', ''good''] = xs @ api # ys \<longrightarrow>
         snd (forOf (tryApi demoIo ordinalCompare demoOpts) [''bad'', ''amb'', ''good''] ([], [])) =
           snd (forOf (tryApi demoIo ordinalCompare demoOpts) ys
                 (snd (tryApi demoIo ordinalCompare demoOpts api
                        (snd (forOf (tryApi demoIo ordinalCompare demoOpts) xs ([], []))))))"
    using bad by (rule conjunct1 [OF conjunct2])
  from this [rule_format, of "[]" "''bad''" "[''amb'', ''good'']"]
  have 4: "snd (forOf (tryApi demoIo ordinalCompare demoOpts) [''bad'', ''amb'', ''good''] ([], []))
       = snd (forOf (tryApi demoIo ordinalCompare demoOpts) [''amb'', ''good'']
               ([], [errorLine ''bad'' ''HTTP 500'']))"
    using 1 by simp
  have 5: "fst (generateLatest demoIo ordinalCompare demoOpts []) = 0
       \<and> last (snd (snd (generateLatest demoIo ordinalCompare demoOpts []))) = Stdout ''Finalizado.''"
    using bad demo_apis by blast
  show ?thesis using 1 2 3 4 5 by blast
qed

end
